theory Spec2Isabelle
  imports
    Main
    "HOL-Library.Char_ord"
    "HOL-Library.List_Lexorder"
    "HOL-Library.Product_Lexorder"
begin

section \<open>Python AST code review (scripts/ast-review-python.py)\<close>

text \<open>
  A shallow embedding of the review script. Python text is a \<^typ>\<open>string\<close> holding the
  UTF-8 bytes of the \<open>str\<close>, so that equality, substring tests and the lexicographic
  order of Python (by code point) agree with those of the byte lists. Python integers
  are \<^typ>\<open>int\<close>; lengths and counts are \<^typ>\<open>nat\<close>. A rule of the script appends to
  the shared list \<open>findings\<close>; the model of a rule takes that list and returns the
  extended one.
\<close>

subsection \<open>Findings\<close>

datatype severity = CRITICAL | WARNING

record finding =
  file_rel :: string
  line :: int
  severity :: severity
  confidence :: nat
  issue :: string
  fix_text :: string

subsection \<open>Text helpers of the Python runtime\<close>

text \<open>\<open>s.startswith(p)\<close> and \<open>kw in s\<close>.\<close>

fun startswith :: "string \<Rightarrow> string \<Rightarrow> bool" where
  "startswith s [] = True"
| "startswith [] (c # p) = False"
| "startswith (x # s) (c # p) = (x = c \<and> startswith s p)"

fun str_in :: "string \<Rightarrow> string \<Rightarrow> bool" where
  "str_in kw [] = (kw = [])"
| "str_in kw (c # s) = (startswith (c # s) kw \<or> str_in kw s)"

text \<open>\<open>str(n)\<close> for a length: the decimal digits, most significant first.\<close>

definition digit_char :: "nat \<Rightarrow> char" where
  "digit_char d = char_of (48 + d)"

fun str_nat :: "nat \<Rightarrow> string" where
  "str_nat n = (if n < 10 then [digit_char n] else str_nat (n div 10) @ [digit_char (n mod 10)])"

text \<open>
  The code points for which \<open>str.isspace\<close> holds (they are also what \<open>\s\<close> matches in a
  \<open>str\<close> pattern), each in UTF-8: U+0009..U+000D, U+001C..U+0020, U+0085, U+00A0,
  U+1680, U+2000..U+200A, U+2028, U+2029, U+202F, U+205F, U+3000.
\<close>

definition SPACES :: "string list" where
  "SPACES =
    [[CHR 0x09], [CHR 0x0A], [CHR 0x0B], [CHR 0x0C], [CHR 0x0D],
     [CHR 0x1C], [CHR 0x1D], [CHR 0x1E], [CHR 0x1F], [CHR 0x20],
     [CHR 0xC2, CHR 0x85], [CHR 0xC2, CHR 0xA0], [CHR 0xE1, CHR 0x9A, CHR 0x80],
     [CHR 0xE2, CHR 0x80, CHR 0x80], [CHR 0xE2, CHR 0x80, CHR 0x81],
     [CHR 0xE2, CHR 0x80, CHR 0x82], [CHR 0xE2, CHR 0x80, CHR 0x83],
     [CHR 0xE2, CHR 0x80, CHR 0x84], [CHR 0xE2, CHR 0x80, CHR 0x85],
     [CHR 0xE2, CHR 0x80, CHR 0x86], [CHR 0xE2, CHR 0x80, CHR 0x87],
     [CHR 0xE2, CHR 0x80, CHR 0x88], [CHR 0xE2, CHR 0x80, CHR 0x89],
     [CHR 0xE2, CHR 0x80, CHR 0x8A], [CHR 0xE2, CHR 0x80, CHR 0xA8],
     [CHR 0xE2, CHR 0x80, CHR 0xA9], [CHR 0xE2, CHR 0x80, CHR 0xAF],
     [CHR 0xE2, CHR 0x81, CHR 0x9F], [CHR 0xE3, CHR 0x80, CHR 0x80]]"

text \<open>One whitespace code point taken off the front, or off the end, of a text.\<close>

definition lspace :: "string \<Rightarrow> string option" where
  "lspace s = map_option (\<lambda>w. drop (length w) s) (find (startswith s) SPACES)"

definition rspace :: "string \<Rightarrow> string option" where
  "rspace s =
     map_option (\<lambda>w. take (length s - length w) s)
       (find (\<lambda>w. startswith (rev s) (rev w)) SPACES)"

text \<open>
  \<open>s.strip()\<close>: whitespace removed at both ends. The fuel is the length of the text,
  which bounds the number of code points that can be removed.
\<close>

fun strip_with :: "(string \<Rightarrow> string option) \<Rightarrow> nat \<Rightarrow> string \<Rightarrow> string" where
  "strip_with one 0 s = s"
| "strip_with one (Suc k) s = (case one s of None \<Rightarrow> s | Some r \<Rightarrow> strip_with one k r)"

definition lstrip :: "string \<Rightarrow> string" where
  "lstrip s = strip_with lspace (length s) s"

definition rstrip :: "string \<Rightarrow> string" where
  "rstrip s = strip_with rspace (length s) s"

definition strip :: "string \<Rightarrow> string" where
  "strip s = rstrip (lstrip s)"

text \<open>
  The exceptions that the script does not catch below its top level.
  \<open>xs[i]\<close>: a negative index counts from the end, an index out of range raises
  \<open>IndexError\<close>. The other three are what \<open>ast.parse\<close> can raise besides \<open>SyntaxError\<close>.
\<close>

datatype py_error = IndexError | RecursionError | MemoryError | ValueError

definition getitem :: "'a list \<Rightarrow> int \<Rightarrow> py_error + 'a" where
  "getitem xs i =
     (let n = int (length xs)
      in if 0 \<le> i \<and> i < n then Inr (xs ! nat i)
         else if - n \<le> i \<and> i < 0 then Inr (xs ! nat (n + i))
         else Inl IndexError)"

text \<open>A \<open>for\<close> loop whose body may raise: the first exception ends the loop.\<close>

fun for_each :: "('a \<Rightarrow> 's \<Rightarrow> py_error + 's) \<Rightarrow> 'a list \<Rightarrow> 's \<Rightarrow> py_error + 's" where
  "for_each f [] s = Inr s"
| "for_each f (x # xs) s = (case f x s of Inl e \<Rightarrow> Inl e | Inr s' \<Rightarrow> for_each f xs s')"

subsection \<open>Regular expressions of the secret table\<close>

text \<open>
  The fragment of \<open>re\<close> that \<open>SECRET_PATTERNS\<close> uses: literals, one character of a class
  or of \<open>\s\<close>, a class repeated \<open>{m,}\<close> or \<open>{m,n}\<close>, \<open>?\<close>, alternation and sequence.
  \<open>ends ic r s\<close> lists what is left of \<open>s\<close> after each way of matching \<open>r\<close> at its
  front; \<open>ic\<close> is the flag \<open>re.I\<close>.
\<close>

datatype atom = Chars "(char \<times> char) list" | Space

datatype regex =
    Lit string
  | One atom
  | Rep atom nat "nat option"
  | Opt regex
  | Alt "regex list"
  | Seq "regex list"

definition swapcase :: "char \<Rightarrow> char" where
  "swapcase c =
     (let n = of_char c :: nat
      in if 65 \<le> n \<and> n \<le> 90 then char_of (n + 32)
         else if 97 \<le> n \<and> n \<le> 122 then char_of (n - 32)
         else c)"

text \<open>
  Under \<open>re.I\<close> four code points outside ASCII equal an ASCII letter once case is
  ignored: U+0130 and U+0131 (dotted and dotless I) equal \<open>i\<close>, U+017F (long s)
  equals \<open>s\<close>, U+212A (Kelvin sign) equals \<open>k\<close>.
\<close>

definition CASELESS_EXTRA :: "(string \<times> char) list" where
  "CASELESS_EXTRA =
    [([CHR 0xC4, CHR 0xB0], CHR ''i''), ([CHR 0xC4, CHR 0xB1], CHR ''i''),
     ([CHR 0xC5, CHR 0xBF], CHR ''s''), ([CHR 0xE2, CHR 0x84, CHR 0xAA], CHR ''k'')]"

text \<open>
  The ways of reading one character off a text: the characters it counts as, and the
  rest of the text.
\<close>

fun heads :: "bool \<Rightarrow> string \<Rightarrow> (char list \<times> string) list" where
  "heads ic [] = []"
| "heads ic (c # s) =
     (if ic
      then ([c, swapcase c], s) #
           map (\<lambda>(w, b). ([b, swapcase b], drop (length w) (c # s)))
             (filter (\<lambda>(w, b). startswith (c # s) w) CASELESS_EXTRA)
      else [([c], s)])"

definition in_ranges :: "(char \<times> char) list \<Rightarrow> char \<Rightarrow> bool" where
  "in_ranges rs c = list_ex (\<lambda>(lo, hi). lo \<le> c \<and> c \<le> hi) rs"

fun atom_ends :: "bool \<Rightarrow> atom \<Rightarrow> string \<Rightarrow> string list" where
  "atom_ends ic (Chars rs) s =
     map snd (filter (\<lambda>(cs, r). list_ex (in_ranges rs) cs) (heads ic s))"
| "atom_ends ic Space s = (case lspace s of None \<Rightarrow> [] | Some r \<Rightarrow> [r])"

fun lit_ends :: "bool \<Rightarrow> string \<Rightarrow> string \<Rightarrow> string list" where
  "lit_ends ic [] s = [s]"
| "lit_ends ic (p # ps) s =
     concat (map (\<lambda>(cs, r). if p \<in> set cs then lit_ends ic ps r else []) (heads ic s))"

text \<open>Exactly \<open>k\<close> repetitions of an atom, and at most \<open>k\<close> of them.\<close>

fun reps :: "bool \<Rightarrow> atom \<Rightarrow> nat \<Rightarrow> string \<Rightarrow> string list" where
  "reps ic a 0 s = [s]"
| "reps ic a (Suc k) s = concat (map (reps ic a k) (atom_ends ic a s))"

fun upto_reps :: "bool \<Rightarrow> atom \<Rightarrow> nat \<Rightarrow> string \<Rightarrow> string list" where
  "upto_reps ic a 0 s = [s]"
| "upto_reps ic a (Suc k) s = s # concat (map (upto_reps ic a k) (atom_ends ic a s))"

fun ends :: "bool \<Rightarrow> regex \<Rightarrow> string \<Rightarrow> string list" where
  "ends ic (Lit p) s = lit_ends ic p s"
| "ends ic (One a) s = atom_ends ic a s"
| "ends ic (Rep a m None) s = concat (map (\<lambda>r. upto_reps ic a (length r) r) (reps ic a m s))"
| "ends ic (Rep a m (Some n)) s = concat (map (upto_reps ic a (n - m)) (reps ic a m s))"
| "ends ic (Opt r) s = s # ends ic r s"
| "ends ic (Alt rs) s = concat (map (\<lambda>r. ends ic r s) rs)"
| "ends ic (Seq rs) s = fold (\<lambda>r ss. concat (map (ends ic r) ss)) rs [s]"

text \<open>\<open>pattern.search(text)\<close> as a truth value: a match starting somewhere in the text.\<close>

fun search_from :: "bool \<Rightarrow> regex \<Rightarrow> string \<Rightarrow> bool" where
  "search_from ic r [] = (ends ic r [] \<noteq> [])"
| "search_from ic r (c # s) = (ends ic r (c # s) \<noteq> [] \<or> search_from ic r s)"

datatype pattern = Compiled regex bool

fun search :: "pattern \<Rightarrow> string \<Rightarrow> bool" where
  "search (Compiled r ic) s = search_from ic r s"

text \<open>
  \<open>SECRET_PATTERNS\<close>, in the order of the source; only the second pattern is compiled
  with \<open>re.I\<close>.
\<close>

definition alnum :: "(char \<times> char) list" where
  "alnum = [(CHR ''A'', CHR ''Z''), (CHR ''a'', CHR ''z''), (CHR ''0'', CHR ''9'')]"

definition sep :: regex where
  "sep = Opt (One (Chars [(CHR ''_'', CHR ''_''), (CHR ''-'', CHR ''-'')]))"

definition quote :: regex where
  "quote = One (Chars [(CHR 0x22, CHR 0x22), (CHR 0x27, CHR 0x27)])"

definition SECRET_PATTERNS :: "(pattern \<times> string) list" where
  "SECRET_PATTERNS =
    [(Compiled (Seq [Alt [Lit ''sk_live_'', Lit ''sk_test_'', Lit ''pk_live_'', Lit ''pk_test_''],
                     Rep (Chars alnum) 10 None]) False,
      ''Stripe key''),
     (Compiled (Seq [Alt [Seq [Lit ''api'', sep, Lit ''key''], Lit ''apikey'',
                          Seq [Lit ''secret'', sep, Lit ''key''],
                          Seq [Lit ''auth'', sep, Lit ''token''],
                          Seq [Lit ''access'', sep, Lit ''token'']],
                     Rep Space 0 None, Lit ''='', Rep Space 0 None, quote,
                     Rep (Chars (alnum @ [(CHR ''_'', CHR ''_''), (CHR ''-'', CHR ''-'')])) 8 None,
                     quote]) True,
      ''Hardcoded secret''),
     (Compiled (Seq [Lit ''Bearer'', Rep Space 1 None,
                     Rep (Chars (alnum @ [(CHR ''_'', CHR ''_''), (CHR ''-'', CHR ''-''),
                                          (CHR ''.'', CHR ''.'')])) 20 None]) False,
      ''Hardcoded Bearer token''),
     (Compiled (Seq [Lit ''-----BEGIN '', Opt (Alt [Lit ''RSA '', Lit ''EC '']),
                     Lit ''PRIVATE KEY-----'']) False,
      ''Private key in source''),
     (Compiled (Seq [Alt [Lit ''ghp_'', Lit ''gho_'', Lit ''ghu_'', Lit ''ghs_'', Lit ''ghr_''],
                     Rep (Chars (alnum @ [(CHR ''_'', CHR ''_'')])) 36 None]) False,
      ''GitHub token''),
     (Compiled (Seq [Lit ''AKIA'',
                     Rep (Chars [(CHR ''0'', CHR ''9''), (CHR ''A'', CHR ''Z'')]) 16 (Some 16)]) False,
      ''AWS access key''),
     (Compiled (Seq [Lit ''xox'',
                     One (Chars [(CHR ''b'', CHR ''b''), (CHR ''p'', CHR ''p''), (CHR ''o'', CHR ''o''),
                                 (CHR ''r'', CHR ''r''), (CHR ''a'', CHR ''a''), (CHR ''s'', CHR ''s'')]),
                     Lit ''-'', Rep (Chars [(CHR ''0'', CHR ''9'')]) 10 None, Lit ''-'',
                     Rep (Chars alnum) 10 None]) False,
      ''Slack token'')]"

definition AUTH_DECORATORS :: "string set" where
  "AUTH_DECORATORS =
    {''login_required'', ''permission_required'', ''user_passes_test'',
     ''staff_member_required'', ''jwt_required'', ''auth_required'',
     ''requires_auth'', ''authenticated'', ''permissions_required'',
     ''api_view''}"

subsection \<open>Syntax trees\<close>

text \<open>
  The result of \<open>ast.parse\<close>. There is a constructor for each node class that a rule
  tests for with \<open>isinstance\<close>, and one for \<open>AsyncFunctionDef\<close> (\<open>async def\<close>), which has
  the fields of \<open>FunctionDef\<close> and is not a subclass of it; a node of any other class
  (\<open>Expr\<close>, \<open>Try\<close>, \<open>If\<close>, \<open>arguments\<close>, \<open>keyword\<close>, \<open>Constant\<close>, ...) is \<open>Other\<close> with its
  child nodes in the order of its fields. The expression-context and operator
  objects, which carry no data and which no rule looks at as nodes, are not listed
  among the children; the operator of a \<open>BinOp\<close> is a field of its own.
  \<open>lineno\<close> is the last argument of a constructor that has one.
\<close>

datatype operator = Add | Sub | Mult | Div | Mod | OtherOperator

datatype node =
    Module "node list"
  | FunctionDef string node "node list" "node list" "node option" "node list" int
  | AsyncFunctionDef string node "node list" "node list" "node option" "node list" int
  | ClassDef string "node list" "node list" "node list" "node list" "node list" int
  | ExceptHandler "node option" "node list" int
  | Call node "node list" "node list" int
  | Name string int
  | Attribute node string int
  | JoinedStr "node list" int
  | BinOp node operator node int
  | Pass int
  | Other "node list"

text \<open>\<open>ast.iter_child_nodes\<close>: the child nodes, field by field.\<close>

fun iter_child_nodes :: "node \<Rightarrow> node list" where
  "iter_child_nodes (Module body) = body"
| "iter_child_nodes (FunctionDef name args body decorator_list returns type_params lineno) =
     args # body @ decorator_list @ (case returns of None \<Rightarrow> [] | Some r \<Rightarrow> [r]) @ type_params"
| "iter_child_nodes (AsyncFunctionDef name args body decorator_list returns type_params lineno) =
     args # body @ decorator_list @ (case returns of None \<Rightarrow> [] | Some r \<Rightarrow> [r]) @ type_params"
| "iter_child_nodes (ClassDef name bases keywords body decorator_list type_params lineno) =
     bases @ keywords @ body @ decorator_list @ type_params"
| "iter_child_nodes (ExceptHandler etype body lineno) =
     (case etype of None \<Rightarrow> [] | Some t \<Rightarrow> [t]) @ body"
| "iter_child_nodes (Call func args keywords lineno) = func # args @ keywords"
| "iter_child_nodes (Name ident lineno) = []"
| "iter_child_nodes (Attribute val attr lineno) = [val]"
| "iter_child_nodes (JoinedStr vals lineno) = vals"
| "iter_child_nodes (BinOp left op right lineno) = [left, right]"
| "iter_child_nodes (Pass lineno) = []"
| "iter_child_nodes (Other children) = children"

text \<open>
  \<open>ast.walk\<close>: the nodes of a tree in breadth-first order. The queue \<open>todo\<close> gives up
  its first node and takes that node's children at its end.
\<close>

function walk_todo :: "node list \<Rightarrow> node list" where
  "walk_todo [] = []"
| "walk_todo (n # todo) = n # walk_todo (todo @ iter_child_nodes n)"
  by pat_completeness auto
termination
proof (relation "measure (\<lambda>todo. sum_list (map (\<lambda>n. 2 * size n + 1) todo))")
  show "wf (measure (\<lambda>todo. sum_list (map (\<lambda>n. 2 * size n + 1) todo)))"
    by simp
next
  fix n :: node and todo :: "node list"
  have le: "sum_list (map (\<lambda>n. 2 * size n + 1) xs) \<le> 2 * size_list size xs"
    for xs :: "node list"
    by (induction xs) auto
  have "sum_list (map (\<lambda>n. 2 * size n + 1) (iter_child_nodes n)) < 2 * size n + 1"
  proof (cases n)
    case (Module body)
    then show ?thesis using le [of body] by auto
  next
    case (FunctionDef name args body decs returns tps l)
    then show ?thesis
      using le [of body] le [of decs] le [of tps] by (cases returns) auto
  next
    case (AsyncFunctionDef name args body decs returns tps l)
    then show ?thesis
      using le [of body] le [of decs] le [of tps] by (cases returns) auto
  next
    case (ClassDef name bases kws body decs tps l)
    then show ?thesis
      using le [of bases] le [of kws] le [of body] le [of decs] le [of tps] by auto
  next
    case (ExceptHandler etype body l)
    then show ?thesis using le [of body] by (cases etype) auto
  next
    case (Call func args kws l)
    then show ?thesis using le [of args] le [of kws] by auto
  next
    case (JoinedStr vals l)
    then show ?thesis using le [of vals] by auto
  next
    case (Other cs)
    then show ?thesis using le [of cs] by auto
  qed auto
  then show "(todo @ iter_child_nodes n, n # todo)
      \<in> measure (\<lambda>todo. sum_list (map (\<lambda>n. 2 * size n + 1) todo))"
    by simp
qed

definition walk :: "node \<Rightarrow> node list" where
  "walk tree = walk_todo [tree]"

subsection \<open>The rules\<close>

text \<open>
  Each rule is a loop over \<open>ast.walk(tree)\<close> (or over the children, or over the lines);
  the function with suffix \<open>_node\<close> or \<open>_line\<close> is the body of the loop.
\<close>

definition VIEW_KEYWORDS :: "string list" where
  "VIEW_KEYWORDS =
    [''view'', ''get'', ''post'', ''put'', ''delete'', ''patch'', ''list'', ''create'',
     ''update'', ''destroy'', ''retrieve'']"

definition is_view :: "string \<Rightarrow> bool" where
  "is_view name = list_ex (\<lambda>kw. str_in kw name) VIEW_KEYWORDS"

fun add_decorator :: "node \<Rightarrow> string set \<Rightarrow> string set" where
  "add_decorator (Name ident l) decorator_names = insert ident decorator_names"
| "add_decorator (Attribute v attr l) decorator_names = insert attr decorator_names"
| "add_decorator (Call (Name ident l') args keywords l) decorator_names =
     insert ident decorator_names"
| "add_decorator (Call (Attribute v attr l') args keywords l) decorator_names =
     insert attr decorator_names"
| "add_decorator dec decorator_names = decorator_names"

fun check_missing_auth_node :: "string \<Rightarrow> node \<Rightarrow> finding list \<Rightarrow> finding list" where
  "check_missing_auth_node rel_path
       (FunctionDef name args body decorator_list returns type_params lineno) findings =
     (if \<not> is_view name then findings
      else if fold add_decorator decorator_list {} \<inter> AUTH_DECORATORS = {}
      then findings @
        [\<lparr>file_rel = rel_path, line = lineno, severity = CRITICAL, confidence = 85,
          issue = ''Function '' @ [CHR 0x27] @ name @ [CHR 0x27] @
                  '' appears to be a view but has no auth decorator'',
          fix_text = ''Add @login_required, @permission_required, or equivalent auth decorator''\<rparr>]
      else findings)"
| "check_missing_auth_node rel_path n findings = findings"

definition check_missing_auth :: "node \<Rightarrow> string \<Rightarrow> finding list \<Rightarrow> finding list" where
  "check_missing_auth tree rel_path findings =
     fold (check_missing_auth_node rel_path) (walk tree) findings"

fun check_bare_except_node :: "string \<Rightarrow> node \<Rightarrow> finding list \<Rightarrow> finding list" where
  "check_bare_except_node rel_path (ExceptHandler None body lineno) findings =
     findings @
       [\<lparr>file_rel = rel_path, line = lineno, severity = WARNING, confidence = 90,
         issue = ''Bare except: block catches all exceptions including SystemExit/KeyboardInterrupt'',
         fix_text = ''Use 'except Exception:' or catch specific exception types''\<rparr>]"
| "check_bare_except_node rel_path n findings = findings"

definition check_bare_except :: "node \<Rightarrow> string \<Rightarrow> finding list \<Rightarrow> finding list" where
  "check_bare_except tree rel_path findings =
     fold (check_bare_except_node rel_path) (walk tree) findings"

fun collect_print :: "node \<Rightarrow> int list \<Rightarrow> int list" where
  "collect_print (Call (Name ident l) args keywords lineno) prints =
     (if ident = ''print'' then prints @ [lineno] else prints)"
| "collect_print n prints = prints"

definition check_print_statements :: "node \<Rightarrow> string \<Rightarrow> finding list \<Rightarrow> finding list" where
  "check_print_statements tree rel_path findings =
     (let prints = fold collect_print (walk tree) []
      in if length prints > 3
         then findings @
           [\<lparr>file_rel = rel_path, line = hd prints, severity = WARNING, confidence = 80,
             issue = str_nat (length prints) @ '' print() statements found in production code'',
             fix_text = ''Replace with logging module (import logging; logger = logging.getLogger(__name__))''\<rparr>]
         else fold (\<lambda>lineno fs. fs @
           [\<lparr>file_rel = rel_path, line = lineno, severity = WARNING, confidence = 75,
             issue = ''print() statement in production code'',
             fix_text = ''Replace with logging.info() or logging.debug()''\<rparr>]) prints findings)"

fun check_eval_exec_node :: "string \<Rightarrow> node \<Rightarrow> finding list \<Rightarrow> finding list" where
  "check_eval_exec_node rel_path (Call (Name ident l) args keywords lineno) findings =
     (if ident \<in> {''eval'', ''exec''}
      then findings @
        [\<lparr>file_rel = rel_path, line = lineno, severity = CRITICAL, confidence = 95,
          issue = ident @ ''() can execute arbitrary code '' @ [CHR 0xE2, CHR 0x80, CHR 0x94] @
                  '' code injection risk'',
          fix_text = ''Replace '' @ ident @
                  ''() with safe alternatives (ast.literal_eval, importlib, etc.)''\<rparr>]
      else findings)"
| "check_eval_exec_node rel_path n findings = findings"

definition check_eval_exec :: "node \<Rightarrow> string \<Rightarrow> finding list \<Rightarrow> finding list" where
  "check_eval_exec tree rel_path findings =
     fold (check_eval_exec_node rel_path) (walk tree) findings"

definition dangerous_methods :: "string set" where
  "dangerous_methods = {''execute'', ''raw'', ''extra'', ''executemany''}"

fun check_sql_injection_node :: "string \<Rightarrow> node \<Rightarrow> finding list \<Rightarrow> finding list" where
  "check_sql_injection_node rel_path (Call (Attribute v method_name l) args keywords lineno) findings =
     (if method_name \<notin> dangerous_methods then findings
      else case args of
        [] \<Rightarrow> findings
      | JoinedStr vals la # rest \<Rightarrow> findings @
          [\<lparr>file_rel = rel_path, line = lineno, severity = CRITICAL, confidence = 95,
            issue = ''SQL injection: f-string passed to .'' @ method_name @ ''()'',
            fix_text = ''Use parameterized queries: cursor.execute('SELECT ... WHERE id = %s', [user_id])''\<rparr>]
      | BinOp left op right la # rest \<Rightarrow>
          (if op = Add \<or> op = Mod
           then findings @
             [\<lparr>file_rel = rel_path, line = lineno, severity = CRITICAL, confidence = 90,
               issue = ''SQL injection: string concatenation/format in .'' @ method_name @ ''()'',
               fix_text = ''Use parameterized queries instead of string concatenation''\<rparr>]
           else findings)
      | arg # rest \<Rightarrow> findings)"
| "check_sql_injection_node rel_path n findings = findings"

definition check_sql_injection :: "node \<Rightarrow> string \<Rightarrow> finding list \<Rightarrow> finding list" where
  "check_sql_injection tree rel_path findings =
     fold (check_sql_injection_node rel_path) (walk tree) findings"

text \<open>
  The inner loop of the secret rule: the label of the first pattern that is found in
  the line (the loop breaks there).
\<close>

fun first_match :: "(pattern \<times> string) list \<Rightarrow> string \<Rightarrow> string option" where
  "first_match [] text = None"
| "first_match ((pat, label) # table) text =
     (if search pat text then Some label else first_match table text)"

definition check_hardcoded_secrets_line ::
    "string \<Rightarrow> nat \<times> string \<Rightarrow> finding list \<Rightarrow> finding list" where
  "check_hardcoded_secrets_line rel_path il findings =
     (case il of (i, text) \<Rightarrow>
        if startswith (strip text) ''#'' then findings
        else case first_match SECRET_PATTERNS text of
          None \<Rightarrow> findings
        | Some label \<Rightarrow> findings @
           [\<lparr>file_rel = rel_path, line = int i, severity = CRITICAL, confidence = 90,
             issue = ''Hardcoded secret detected: '' @ label,
             fix_text = ''Move to environment variable or secrets manager''\<rparr>])"

text \<open>
  The rule opens the file again; \<open>None\<close> stands for an \<open>open\<close> or \<open>readlines\<close> that
  raises, \<open>Some lines\<close> for the list that \<open>readlines\<close> returns.
\<close>

definition check_hardcoded_secrets :: "string list option \<Rightarrow> string \<Rightarrow> finding list \<Rightarrow> finding list" where
  "check_hardcoded_secrets readlines rel_path findings =
     (case readlines of
        None \<Rightarrow> findings
      | Some lines \<Rightarrow> fold (check_hardcoded_secrets_line rel_path) (enumerate 1 lines) findings)"

fun check_missing_type_hints_item :: "string \<Rightarrow> node \<Rightarrow> finding list \<Rightarrow> finding list" where
  "check_missing_type_hints_item rel_path
       (FunctionDef name args body decorator_list returns type_params lineno) findings =
     (if \<not> startswith name ''_'' \<and> returns = None
      then findings @
        [\<lparr>file_rel = rel_path, line = lineno, severity = WARNING, confidence = 70,
          issue = ''Public method '' @ [CHR 0x27] @ name @ [CHR 0x27] @ '' has no return type hint'',
          fix_text = ''Add return type: def '' @ name @ ''(...) -> ReturnType:''\<rparr>]
      else findings)"
| "check_missing_type_hints_item rel_path item findings = findings"

fun check_missing_type_hints_node :: "string \<Rightarrow> node \<Rightarrow> finding list \<Rightarrow> finding list" where
  "check_missing_type_hints_node rel_path
       (ClassDef name bases keywords body decorator_list type_params lineno) findings =
     fold (check_missing_type_hints_item rel_path)
       (iter_child_nodes (ClassDef name bases keywords body decorator_list type_params lineno))
       findings"
| "check_missing_type_hints_node rel_path
       (FunctionDef name args body decorator_list returns type_params lineno) findings =
     (if \<not> startswith name ''_'' \<and> returns = None
      then findings @
        [\<lparr>file_rel = rel_path, line = lineno, severity = WARNING, confidence = 70,
          issue = ''Public function '' @ [CHR 0x27] @ name @ [CHR 0x27] @ '' has no return type hint'',
          fix_text = ''Add return type: def '' @ name @ ''(...) -> ReturnType:''\<rparr>]
      else findings)"
| "check_missing_type_hints_node rel_path n findings = findings"

definition check_missing_type_hints :: "node \<Rightarrow> string \<Rightarrow> finding list \<Rightarrow> finding list" where
  "check_missing_type_hints tree rel_path findings =
     fold (check_missing_type_hints_node rel_path) (iter_child_nodes tree) findings"

text \<open>
  The empty-except rule reads the line of the \<open>pass\<close> statement from a second reading
  of the file; \<open>source_lines[line_idx]\<close> can raise, so the body of the loop returns
  a sum.
\<close>

fun check_empty_except_body_node ::
    "string list \<Rightarrow> string \<Rightarrow> node \<Rightarrow> finding list \<Rightarrow> py_error + finding list" where
  "check_empty_except_body_node source_lines rel_path (ExceptHandler etype [Pass pass_lineno] lineno)
       findings =
     (let line_idx = pass_lineno - 1
      in if line_idx < int (length source_lines)
         then case getitem source_lines line_idx of
                Inl e \<Rightarrow> Inl e
              | Inr line_text \<Rightarrow>
                  if CHR ''#'' \<notin> set line_text
                  then Inr (findings @
                    [\<lparr>file_rel = rel_path, line = lineno, severity = WARNING, confidence = 85,
                      issue = ''Empty except block silently swallows errors'',
                      fix_text = ''Add error logging, re-raise, or add a comment explaining why''\<rparr>])
                  else Inr findings
         else Inr findings)"
| "check_empty_except_body_node source_lines rel_path n findings = Inr findings"

definition check_empty_except_body ::
    "node \<Rightarrow> string list option \<Rightarrow> string \<Rightarrow> finding list \<Rightarrow> py_error + finding list" where
  "check_empty_except_body tree readlines rel_path findings =
     (case readlines of
        None \<Rightarrow> Inr findings
      | Some source_lines \<Rightarrow>
          for_each (check_empty_except_body_node source_lines rel_path) (walk tree) findings)"

subsection \<open>One file, and the run\<close>

text \<open>
  What the file system and the parser give for one path of the scan list:
  \<open>ReadError\<close> when \<open>open\<close> or \<open>read\<close> raises (\<open>except Exception\<close> catches it),
  \<open>SyntaxError\<close> when \<open>ast.parse\<close> raises it or one of its subclasses, \<open>OtherError e\<close>
  when \<open>ast.parse\<close> raises an exception \<open>e\<close> that is not a \<open>SyntaxError\<close> (a
  \<open>RecursionError\<close> on a deeply nested source, for one), the tree otherwise; and the
  two later readings of the same path by the empty-except rule and by the secret
  rule, each \<open>None\<close> when it raises. \<open>relative_to_root\<close> is
  \<open>str(filepath.relative_to(root))\<close>, for a path below the root.
\<close>

datatype parse_result = ReadError | SyntaxError | OtherError py_error | Tree node

record py_file =
  relative_to_root :: string
  parsed :: parse_result
  except_readlines :: "string list option"
  secret_readlines :: "string list option"

text \<open>
  \<open>analyze_file\<close> returns \<open>False\<close> before any rule has run when the file cannot be read
  or \<open>ast.parse\<close> raises \<open>SyntaxError\<close>, and \<open>True\<close> after the eight rules otherwise.
  \<open>except SyntaxError\<close> catches nothing else: any other exception of \<open>ast.parse\<close>, and
  an exception that leaves a rule, leave \<open>analyze_file\<close> too.
\<close>

definition analyze_file :: "py_file \<Rightarrow> finding list \<Rightarrow> py_error + bool \<times> finding list" where
  "analyze_file filepath findings =
     (let rel_path = relative_to_root filepath
      in case parsed filepath of
           ReadError \<Rightarrow> Inr (False, findings)
         | SyntaxError \<Rightarrow> Inr (False, findings)
         | OtherError e \<Rightarrow> Inl e
         | Tree tree \<Rightarrow>
            (let findings = check_missing_auth tree rel_path findings;
                 findings = check_bare_except tree rel_path findings
             in case check_empty_except_body tree (except_readlines filepath) rel_path findings of
                  Inl e \<Rightarrow> Inl e
                | Inr findings \<Rightarrow>
                   (let findings = check_print_statements tree rel_path findings;
                        findings = check_eval_exec tree rel_path findings;
                        findings = check_sql_injection tree rel_path findings;
                        findings = check_hardcoded_secrets (secret_readlines filepath) rel_path findings;
                        findings = check_missing_type_hints tree rel_path findings
                    in Inr (True, findings))))"

text \<open>The body of the loop of \<open>main\<close> over \<open>py_files\<close>, on the three variables it updates.\<close>

definition scan_file ::
    "py_file \<Rightarrow> finding list \<times> string list \<times> nat \<Rightarrow> py_error + finding list \<times> string list \<times> nat" where
  "scan_file filepath st =
     (case st of (findings, clean_files, scanned) \<Rightarrow>
        let before = length findings
        in case analyze_file filepath findings of
             Inl e \<Rightarrow> Inl e
           | Inr (ok, findings') \<Rightarrow>
               if ok
               then Inr (findings',
                         if length findings' = before
                         then clean_files @ [relative_to_root filepath] else clean_files,
                         scanned + 1)
               else Inr (findings', clean_files, scanned))"

text \<open>
  Two readings of \<open>analyze_file\<close> that the statements about a run use: whether the file
  reached the rules, and what the rules append for it (the result on an empty list;
  nothing when the file is skipped or an exception leaves a rule).
\<close>

definition analyzed :: "py_file \<Rightarrow> bool" where
  "analyzed filepath = (case parsed filepath of Tree tree \<Rightarrow> True | _ \<Rightarrow> False)"

definition file_findings :: "py_file \<Rightarrow> finding list" where
  "file_findings filepath =
     (case analyze_file filepath [] of Inl e \<Rightarrow> [] | Inr (ok, new) \<Rightarrow> new)"

text \<open>The key of the final sort, and the sort (\<open>list.sort\<close> is stable).\<close>

definition sort_rank :: "finding \<Rightarrow> nat \<times> string \<times> int" where
  "sort_rank f = (if severity f = CRITICAL then 0 else 1, file_rel f, line f)"

definition sort_findings :: "finding list \<Rightarrow> finding list" where
  "sort_findings findings = sort_key sort_rank findings"

datatype verdict = APPROVE | COMMENT | REQUEST_CHANGES

record report =
  files_scanned :: nat
  sorted_findings :: "finding list"
  clean_list :: "string list"
  n_critical :: nat
  n_warning :: nat
  verdict :: verdict
  status :: nat

text \<open>
  \<open>main\<close> from the list of files on: the verdict it prints and the status it returns,
  with the values it reports before. The early return for an empty list reports
  nothing, so the report holds no finding and no file there.
\<close>

definition main :: "py_file list \<Rightarrow> py_error + report" where
  "main py_files =
     (if py_files = []
      then Inr \<lparr>files_scanned = 0, sorted_findings = [], clean_list = [], n_critical = 0,
                n_warning = 0, verdict = APPROVE, status = 0\<rparr>
      else case for_each scan_file py_files ([], [], 0) of
        Inl e \<Rightarrow> Inl e
      | Inr (findings, clean_files, scanned) \<Rightarrow>
         (let findings = sort_findings findings;
              critical_count = length (filter (\<lambda>f. severity f = CRITICAL) findings);
              warning_count = length (filter (\<lambda>f. severity f = WARNING) findings);
              r = \<lparr>files_scanned = scanned, sorted_findings = findings, clean_list = clean_files,
                   n_critical = critical_count, n_warning = warning_count,
                   verdict = APPROVE, status = 0\<rparr>
          in if critical_count > 0 then Inr (r\<lparr>verdict := REQUEST_CHANGES, status := 1\<rparr>)
             else if warning_count > 0 then Inr (r\<lparr>verdict := COMMENT, status := 0\<rparr>)
             else Inr (r\<lparr>verdict := APPROVE, status := 0\<rparr>)))"

text \<open>The process exit status: an exception that reaches the top level gives 2.\<close>

definition exit_code :: "py_error + report \<Rightarrow> nat" where
  "exit_code result = (case result of Inl e \<Rightarrow> 2 | Inr r \<Rightarrow> status r)"

subsection \<open>Example inputs\<close>

text \<open>
  Trees as \<open>ast.parse\<close> builds them for the sources quoted with each (line numbers on
  the left). Argument lists, constants and expression statements are \<open>Other\<close> nodes.
\<close>

text \<open>
  \<^verbatim>\<open>
     1  x = eval(s)
     2  obj.eval(s)
     3  exec(s, g)
  \<close>
\<close>

definition dyn_example :: node where
  "dyn_example =
     Module [(Other [(Name ''x'' 1), (Call (Name ''eval'' 1) [(Name ''s'' 1)] [] 1)]),
     (Other [(Call (Attribute (Name ''obj'' 2) ''eval'' 2) [(Name ''s'' 2)] [] 2)]),
     (Other [(Call (Name ''exec'' 3) [(Name ''s'' 3), (Name ''g'' 3)] [] 3)])]"



text \<open>
  \<^verbatim>\<open>
     1  def top(x):
     2      def inner():
     3          pass
     4  class A:
     5      def method(self):
     6          pass
     7      def _hidden(self):
     8          pass
     9      def typed(self) -> int:
    10          pass
    11      class B:
    12          def deep(self):
    13              pass
    14  def _private():
    15      pass
  \<close>
\<close>

definition hints_example :: node where
  "hints_example =
     Module [(FunctionDef ''top'' (Other [(Other [])]) [(FunctionDef ''inner'' (Other []) [(Pass 3)] [] None [] 2)] [] None [] 1),
     (ClassDef ''A'' [] [] [(FunctionDef ''method'' (Other [(Other [])]) [(Pass 6)] [] None [] 5),
     (FunctionDef ''_hidden'' (Other [(Other [])]) [(Pass 8)] [] None [] 7),
     (FunctionDef ''typed'' (Other [(Other [])]) [(Pass 10)] [] (Some (Name ''int'' 9)) [] 9),
     (ClassDef ''B'' [] [] [(FunctionDef ''deep'' (Other [(Other [])]) [(Pass 13)] [] None [] 12)] [] [] 11)] [] [] 4),
     (FunctionDef ''_private'' (Other []) [(Pass 15)] [] None [] 14)]"


text \<open>
  \<^verbatim>\<open>
     1  try:
     2      f()
     3  except:
     4      pass
  \<close>
\<close>

definition exc_example :: node where
  "exc_example =
     Module [(Other [(Other [(Call (Name ''f'' 2) [] [] 2)]),
     (ExceptHandler None [(Pass 4)] 3)])]"

text \<open>
  \<^verbatim>\<open>
     1  async def get_profile(request):
     2      pass
     3  class Api:
     4      async def list_items(self):
     5          pass
  \<close>
\<close>

definition async_example :: node where
  "async_example =
     Module [(AsyncFunctionDef ''get_profile'' (Other [(Other [])]) [(Pass 2)] [] None [] 1),
     (ClassDef ''Api'' [] [] [(AsyncFunctionDef ''list_items'' (Other [(Other [])]) [(Pass 5)] [] None [] 4)] [] [] 3)]"

text \<open>
  Four lines as \<open>readlines\<close> returns them: a comment that holds a secret, a line that
  matches the first and the second pattern, a line that matches none, and a bearer
  token.
\<close>

definition secret_lines_example :: "string list" where
  "secret_lines_example =
     [''# api_key = \"abcdefgh1234\"'' @ [CHR 0x0A],
      ''api_key = \"sk_live_abcdefghij\"'' @ [CHR 0x0A],
      ''x = 1'' @ [CHR 0x0A],
      ''    auth = \"Bearer abcdefghijklmnopqrstuvwx\"'' @ [CHR 0x0A]]"

text \<open>
  A scan list of five files: \<open>exc.py\<close> and \<open>dyn.py\<close> hold the sources of \<open>exc_example\<close>
  and \<open>dyn_example\<close>, \<open>clean.py\<close> is the one line \<^verbatim>\<open>x = 1\<close>, \<open>broken.py\<close> does not
  parse and \<open>locked.py\<close> cannot be read.
\<close>

definition run_example :: "py_file list" where
  "run_example =
     [\<lparr>relative_to_root = ''exc.py'', parsed = Tree exc_example,
       except_readlines = Some [''try:'' @ [CHR 0x0A], ''    f()'' @ [CHR 0x0A],
                                ''except:'' @ [CHR 0x0A], ''    pass'' @ [CHR 0x0A]],
       secret_readlines = Some [''try:'' @ [CHR 0x0A], ''    f()'' @ [CHR 0x0A],
                                ''except:'' @ [CHR 0x0A], ''    pass'' @ [CHR 0x0A]]\<rparr>,
      \<lparr>relative_to_root = ''broken.py'', parsed = SyntaxError,
       except_readlines = Some [''def f(:'' @ [CHR 0x0A]],
       secret_readlines = Some [''def f(:'' @ [CHR 0x0A]]\<rparr>,
      \<lparr>relative_to_root = ''dyn.py'', parsed = Tree dyn_example,
       except_readlines = Some [''x = eval(s)'' @ [CHR 0x0A], ''obj.eval(s)'' @ [CHR 0x0A],
                                ''exec(s, g)'' @ [CHR 0x0A]],
       secret_readlines = Some [''x = eval(s)'' @ [CHR 0x0A], ''obj.eval(s)'' @ [CHR 0x0A],
                                ''exec(s, g)'' @ [CHR 0x0A]]\<rparr>,
      \<lparr>relative_to_root = ''clean.py'', parsed = Tree (Module [Other [Name ''x'' 1, Other []]]),
       except_readlines = Some [''x = 1'' @ [CHR 0x0A]],
       secret_readlines = Some [''x = 1'' @ [CHR 0x0A]]\<rparr>,
      \<lparr>relative_to_root = ''locked.py'', parsed = ReadError,
       except_readlines = None, secret_readlines = None\<rparr>]"


section \<open>Properties\<close>

subsection \<open>Loops that only append\<close>

lemma fold_emit:
  assumes "\<And>x acc. step x acc = acc @ emit x"
  shows "fold step xs acc = acc @ concat (map emit xs)"
  using assms by (induction xs arbitrary: acc) simp_all

lemma fold_snoc_map: "fold (\<lambda>x acc. acc @ [g x]) xs acc = acc @ map g xs"
  by (induction xs arbitrary: acc) simp_all

subsection \<open>Dynamic code execution\<close>

lemma check_eval_exec_node_emit:
  "check_eval_exec_node rel_path n findings = findings @ check_eval_exec_node rel_path n []"
  by (cases "(rel_path, n, findings)" rule: check_eval_exec_node.cases) simp_all



subsection \<open>SQL injection\<close>

lemma check_sql_injection_node_emit:
  "check_sql_injection_node rel_path n findings = findings @ check_sql_injection_node rel_path n []"
  by (cases "(rel_path, n, findings)" rule: check_sql_injection_node.cases)
     (simp_all split: list.splits node.splits)



subsection \<open>Missing authentication decorator\<close>

lemma startswith_iff: "startswith s p \<longleftrightarrow> (\<exists>post. s = p @ post)"
  by (induction s p rule: startswith.induct) auto




lemma check_missing_auth_node_emit:
  "check_missing_auth_node rel_path n findings = findings @ check_missing_auth_node rel_path n []"
  by (cases "(rel_path, n, findings)" rule: check_missing_auth_node.cases) simp_all




subsection \<open>Missing return annotation\<close>

lemma check_missing_type_hints_item_emit:
  "check_missing_type_hints_item rel_path n findings =
     findings @ check_missing_type_hints_item rel_path n []"
  by (cases "(rel_path, n, findings)" rule: check_missing_type_hints_item.cases) simp_all

lemma check_missing_type_hints_item_fold:
  "fold (check_missing_type_hints_item rel_path) xs acc =
     acc @ concat (map (\<lambda>n. check_missing_type_hints_item rel_path n []) xs)"
  by (rule fold_emit) (rule check_missing_type_hints_item_emit)

lemma check_missing_type_hints_node_emit:
  "check_missing_type_hints_node rel_path n findings =
     findings @ check_missing_type_hints_node rel_path n []"
proof (cases "(rel_path, n, findings)" rule: check_missing_type_hints_node.cases)
  case (1 rel_path name bases kws body decorator_list type_params lineno findings)
  then show ?thesis
    by (simp add: check_missing_type_hints_item_fold)
qed simp_all

lemma starts_underscore: "startswith name ''_'' \<longleftrightarrow> (\<exists>rest. name = CHR ''_'' # rest)"
  by (simp add: startswith_iff)

text \<open>
  C8, as the code has it. The return-annotation rule appends one finding (WARNING,
  confidence 70, at the line of the definition) exactly for the \<open>FunctionDef\<close> nodes
  (\<open>def\<close> statements) that are children of the module, or children of a \<open>ClassDef\<close>
  that is a child of the module, whose name does not start with an underscore and
  whose \<open>returns\<close> is \<open>None\<close>; the order is that of the children. The body of such a
  definition and the children of any other child do not occur on the right: a
  definition nested in a function, or in a class that is not a child of the module,
  is never reported, whatever its name and annotation. A child of another class
  gives nothing either: an \<open>async def\<close> is never reported.
\<close>

theorem missing_type_hints_rule:
  "check_missing_type_hints tree rel_path findings =
     findings @
     concat (map (\<lambda>child. case child of
        FunctionDef name args body decorator_list returns type_params lineno \<Rightarrow>
          if (\<nexists>rest. name = CHR ''_'' # rest) \<and> returns = None
          then [\<lparr>file_rel = rel_path, line = lineno, severity = WARNING, confidence = 70,
                 issue = ''Public function '' @ [CHR 0x27] @ name @ [CHR 0x27] @
                         '' has no return type hint'',
                 fix_text = ''Add return type: def '' @ name @ ''(...) -> ReturnType:''\<rparr>]
          else []
      | ClassDef cname bases keywords cbody cdecorators ctype_params clineno \<Rightarrow>
          [\<lparr>file_rel = rel_path, line = lineno, severity = WARNING, confidence = 70,
            issue = ''Public method '' @ [CHR 0x27] @ name @ [CHR 0x27] @
                    '' has no return type hint'',
            fix_text = ''Add return type: def '' @ name @ ''(...) -> ReturnType:''\<rparr>.
           FunctionDef name args body decorator_list returns type_params lineno
             \<leftarrow> bases @ keywords @ cbody @ cdecorators @ ctype_params,
           \<nexists>rest. name = CHR ''_'' # rest, returns = None]
      | _ \<Rightarrow> []) (iter_child_nodes tree))"
  (is "_ = _ @ concat (map ?emit _)")
proof -
  have items: "concat (map (\<lambda>n. check_missing_type_hints_item rel_path n []) xs) =
      [\<lparr>file_rel = rel_path, line = lineno, severity = WARNING, confidence = 70,
        issue = ''Public method '' @ [CHR 0x27] @ name @ [CHR 0x27] @
                '' has no return type hint'',
        fix_text = ''Add return type: def '' @ name @ ''(...) -> ReturnType:''\<rparr>.
       FunctionDef name args body decorator_list returns type_params lineno \<leftarrow> xs,
       \<nexists>rest. name = CHR ''_'' # rest, returns = None]" for xs
    by (induction xs) (auto simp: starts_underscore split: node.splits)
  have "check_missing_type_hints_node rel_path n [] = ?emit n" for n
  proof (cases n)
    case (ClassDef cname bases kws cbody cdecorators ctype_params clineno)
    then show ?thesis
      using items [of "bases @ kws @ cbody @ cdecorators @ ctype_params"]
      by (simp add: check_missing_type_hints_item_fold)
  qed (simp_all add: starts_underscore)
  then have "(\<lambda>n. check_missing_type_hints_node rel_path n []) = ?emit"
    by (rule ext)
  then show ?thesis
    unfolding check_missing_type_hints_def
    using fold_emit [of "check_missing_type_hints_node rel_path",
        OF check_missing_type_hints_node_emit]
    by simp
qed

text \<open>
  On \<open>hints_example\<close>: \<open>top\<close> (line 1) and \<open>A.method\<close> (line 5) are reported; \<open>inner\<close>
  (nested in \<open>top\<close>), \<open>_hidden\<close>, \<open>typed\<close> (annotated), \<open>deep\<close> (in the class \<open>B\<close> nested in
  \<open>A\<close>) and \<open>_private\<close> are not.
\<close>

theorem missing_type_hints_rule_witness:
  "map (\<lambda>f. (line f, severity f, confidence f))
       (check_missing_type_hints hints_example ''hints.py'' []) =
     [(1, WARNING, 70), (5, WARNING, 70)]"
  by (simp add: missing_type_hints_rule hints_example_def)

text \<open>
  C8 as stated speaks of the function-like definitions. In \<open>async_example\<close>
  \<open>async def get_profile\<close> is a child of the module and \<open>async def list_items\<close> a child
  of the class \<open>Api\<close>, both public and without return annotation, and the rule reports
  neither.
\<close>

theorem async_def_no_hint_counterexample:
  "\<not> startswith ''get_profile'' ''_'' \<and> \<not> startswith ''list_items'' ''_'' \<and>
   check_missing_type_hints async_example ''async.py'' [] = []"
  by (simp add: check_missing_type_hints_def async_example_def)

subsection \<open>Hardcoded secrets\<close>

lemma first_match_find:
  "first_match table text = map_option snd (find (\<lambda>(pat, label). search pat text) table)"
  by (induction table) auto

text \<open>
  C4. For the lines that \<open>readlines\<close> returns, numbered from 1, the secret rule appends
  exactly one finding (CRITICAL, confidence 90, at the number of the line) for each
  line whose stripped text does not start with \<open>#\<close> and in which some pattern of
  \<open>SECRET_PATTERNS\<close> is found; its label is that of the first such entry of the table
  (\<open>find\<close> returns the first element of a list that satisfies the predicate). A line
  in which no pattern is found, and a comment line, give nothing, however many
  patterns the comment matches.
\<close>

theorem hardcoded_secrets_rule:
  "check_hardcoded_secrets (Some lines) rel_path findings =
     findings @
     [\<lparr>file_rel = rel_path, line = int i, severity = CRITICAL, confidence = 90,
       issue = ''Hardcoded secret detected: '' @ label,
       fix_text = ''Move to environment variable or secrets manager''\<rparr>.
      (i, text) \<leftarrow> enumerate 1 lines,
      \<not> startswith (strip text) ''#'',
      (pat, label) \<leftarrow> (case find (\<lambda>(pat, label). search pat text) SECRET_PATTERNS of
                         None \<Rightarrow> [] | Some entry \<Rightarrow> [entry])]"
  (is "_ = _ @ concat (map ?emit _)")
proof -
  have step: "check_hardcoded_secrets_line rel_path il acc =
      acc @ check_hardcoded_secrets_line rel_path il []" for il acc
    by (simp add: check_hardcoded_secrets_line_def split: prod.splits option.splits)
  have "(\<lambda>il. check_hardcoded_secrets_line rel_path il []) = ?emit"
    by (rule ext)
       (auto simp: check_hardcoded_secrets_line_def first_match_find split: prod.splits option.splits)
  then show ?thesis
    unfolding check_hardcoded_secrets_def
    using fold_emit [of "check_hardcoded_secrets_line rel_path", OF step]
    by simp
qed

text \<open>
  On \<open>secret_lines_example\<close>: the comment of line 1 is skipped, line 2 matches the
  Stripe pattern and the generic pattern and is reported once, as a Stripe key, line
  3 matches nothing, line 4 is a bearer token.
\<close>

theorem hardcoded_secrets_rule_witness:
  "map (\<lambda>f. (line f, severity f, confidence f, issue f))
       (check_hardcoded_secrets (Some secret_lines_example) ''s.py'' []) =
     [(2, CRITICAL, 90, ''Hardcoded secret detected: Stripe key''),
      (4, CRITICAL, 90, ''Hardcoded secret detected: Hardcoded Bearer token'')]"
  by (subst hardcoded_secrets_rule) code_simp

subsection \<open>Console output\<close>


text \<open>\<open>str_nat\<close> writes the decimal numeral: reading the digits back gives the number.\<close>

lemma digit_value: "d < 10 \<Longrightarrow> of_char (digit_char d) - 48 = (d::nat)"
  by (simp add: digit_char_def)

lemma str_nat_decimal:
  "foldl (\<lambda>a c. 10 * a + (of_char c - 48)) (0::nat) (str_nat n) = n"
proof (induction n rule: str_nat.induct)
  case (1 n)
  show ?case
  proof (cases "n < 10")
    case True
    then show ?thesis by (simp add: digit_value)
  next
    case False
    then have "foldl (\<lambda>a c. 10 * a + (of_char c - 48)) (0::nat) (str_nat (n div 10)) = n div 10"
      using "1.IH" by simp
    moreover have "str_nat n = str_nat (n div 10) @ [digit_char (n mod 10)]"
      using False by (subst str_nat.simps) simp
    ultimately show ?thesis
      by (simp add: digit_value)
  qed
qed





subsection \<open>The run on the example scan list\<close>

text \<open>
  \<open>main\<close> on \<open>run_example\<close>: three files are scanned, \<open>clean.py\<close> is clean, the two
  CRITICAL findings of \<open>dyn.py\<close> come before the two WARNING findings of \<open>exc.py\<close>, and
  the verdict is REQUEST CHANGES with status 1.
\<close>

lemma run_example_result:
  "map_sum id (\<lambda>r. (files_scanned r, clean_list r, n_critical r, n_warning r, verdict r, status r,
       map (\<lambda>f. (file_rel f, line f, severity f, confidence f)) (sorted_findings r)))
     (main run_example) =
   Inr (3, [''clean.py''], 2, 2, REQUEST_CHANGES, 1,
        [(''dyn.py'', 1, CRITICAL, 95), (''dyn.py'', 3, CRITICAL, 95),
         (''exc.py'', 3, WARNING, 90), (''exc.py'', 3, WARNING, 85)])"
  by code_simp

lemma run_example_returns:
  obtains r where "main run_example = Inr r"
    and "files_scanned r = 3" and "clean_list r = [''clean.py'']"
    and "n_critical r = 2" and "n_warning r = 2"
    and "map (\<lambda>f. (file_rel f, line f, severity f, confidence f)) (sorted_findings r) =
        [(''dyn.py'', 1, CRITICAL, 95), (''dyn.py'', 3, CRITICAL, 95),
         (''exc.py'', 3, WARNING, 90), (''exc.py'', 3, WARNING, 85)]"
  using run_example_result by (cases "main run_example") auto

subsection \<open>Verdict\<close>

text \<open>
  C1. For a run of \<open>main\<close> that returns a report \<open>r\<close>: the verdict is REQUEST CHANGES
  exactly when the CRITICAL count is positive, and the status is then 1; it is
  APPROVE exactly when both counts are zero or the scan list is empty, and COMMENT
  otherwise, with status 0. The status is the exit status of the process. The counts
  are those of the findings by severity, so they are the same whatever the confidence
  values of the findings are; and two runs with the same two counts and the same
  answer to "is the scan list empty" have the same verdict and status.
\<close>

theorem verdict_of_run:
  "main py_files = Inr r \<longrightarrow>
     (verdict r = REQUEST_CHANGES \<longleftrightarrow> n_critical r > 0) \<and>
     (verdict r = APPROVE \<longleftrightarrow> n_critical r = 0 \<and> n_warning r = 0 \<or> py_files = []) \<and>
     (verdict r = COMMENT \<longleftrightarrow>
        \<not> n_critical r > 0 \<and> \<not> (n_critical r = 0 \<and> n_warning r = 0 \<or> py_files = [])) \<and>
     status r = (if verdict r = REQUEST_CHANGES then 1 else 0) \<and>
     exit_code (main py_files) = status r \<and>
     n_critical r = length [f \<leftarrow> sorted_findings r. severity f = CRITICAL] \<and>
     n_warning r = length [f \<leftarrow> sorted_findings r. severity f = WARNING] \<and>
     (\<forall>g. length [f \<leftarrow> map (\<lambda>f. f\<lparr>confidence := g f\<rparr>) (sorted_findings r). severity f = CRITICAL]
            = n_critical r \<and>
          length [f \<leftarrow> map (\<lambda>f. f\<lparr>confidence := g f\<rparr>) (sorted_findings r). severity f = WARNING]
            = n_warning r) \<and>
     (\<forall>py_files' r'. main py_files' = Inr r' \<and> n_critical r' = n_critical r \<and>
          n_warning r' = n_warning r \<and> (py_files' = [] \<longleftrightarrow> py_files = []) \<longrightarrow>
          verdict r' = verdict r \<and> status r' = status r)"
proof
  assume run: "main py_files = Inr r"
  have decide: "(verdict r', status r') =
      (if n_critical r' > 0 then (REQUEST_CHANGES, 1)
       else if n_warning r' > 0 then (COMMENT, 0) else (APPROVE, 0))"
    if "main fs = Inr r'" for fs r'
    using that
    by (auto simp: main_def Let_def split: if_splits sum.splits prod.splits)
  have shape: "n_critical r' = length [f \<leftarrow> sorted_findings r'. severity f = CRITICAL] \<and>
      n_warning r' = length [f \<leftarrow> sorted_findings r'. severity f = WARNING] \<and>
      (fs = [] \<longrightarrow> n_critical r' = 0 \<and> n_warning r' = 0)"
    if "main fs = Inr r'" for fs r'
    using that
    by (auto simp: main_def Let_def split: if_splits sum.splits prod.splits)
  show "(verdict r = REQUEST_CHANGES \<longleftrightarrow> n_critical r > 0) \<and>
     (verdict r = APPROVE \<longleftrightarrow> n_critical r = 0 \<and> n_warning r = 0 \<or> py_files = []) \<and>
     (verdict r = COMMENT \<longleftrightarrow>
        \<not> n_critical r > 0 \<and> \<not> (n_critical r = 0 \<and> n_warning r = 0 \<or> py_files = [])) \<and>
     status r = (if verdict r = REQUEST_CHANGES then 1 else 0) \<and>
     exit_code (main py_files) = status r \<and>
     n_critical r = length [f \<leftarrow> sorted_findings r. severity f = CRITICAL] \<and>
     n_warning r = length [f \<leftarrow> sorted_findings r. severity f = WARNING] \<and>
     (\<forall>g. length [f \<leftarrow> map (\<lambda>f. f\<lparr>confidence := g f\<rparr>) (sorted_findings r). severity f = CRITICAL]
            = n_critical r \<and>
          length [f \<leftarrow> map (\<lambda>f. f\<lparr>confidence := g f\<rparr>) (sorted_findings r). severity f = WARNING]
            = n_warning r) \<and>
     (\<forall>py_files' r'. main py_files' = Inr r' \<and> n_critical r' = n_critical r \<and>
          n_warning r' = n_warning r \<and> (py_files' = [] \<longleftrightarrow> py_files = []) \<longrightarrow>
          verdict r' = verdict r \<and> status r' = status r)"
  proof (intro conjI allI impI)
    fix py_files' r'
    assume "main py_files' = Inr r' \<and> n_critical r' = n_critical r \<and>
          n_warning r' = n_warning r \<and> (py_files' = [] \<longleftrightarrow> py_files = [])"
    then have "main py_files' = Inr r'" and "n_critical r' = n_critical r"
      and "n_warning r' = n_warning r"
      by simp_all
    then have "(verdict r', status r') = (verdict r, status r)"
      using decide [OF run] decide [of py_files' r'] by simp
    then show "verdict r' = verdict r" and "status r' = status r" by simp_all
  qed (use decide [OF run] shape [OF run] run in
      \<open>auto simp: comp_def exit_code_def split: if_splits\<close>)
qed

theorem verdict_of_run_witness:
  "\<exists>r. main run_example = Inr r \<and> n_critical r = 2 \<and> verdict r = REQUEST_CHANGES \<and>
       status r = 1 \<and> exit_code (main run_example) = 1"
proof -
  obtain r where run: "main run_example = Inr r" and crit: "n_critical r = 2"
    by (rule run_example_returns)
  from verdict_of_run [of run_example r] run crit
  have "verdict r = REQUEST_CHANGES \<and> status r = 1 \<and> exit_code (main run_example) = 1"
    by simp
  with run crit show ?thesis by blast
qed

subsection \<open>The final sort\<close>

text \<open>
  The key of the sort compares as a triple, lexicographically; on the first component
  CRITICAL (0) is below WARNING (1), the paths compare as lists of characters
  (\<open>List_Lexorder\<close>, characters by their code: the order of Python on \<open>str\<close>).
\<close>

lemma sort_rank_le:
  "sort_rank a \<le> sort_rank b \<longleftrightarrow>
     severity a = CRITICAL \<and> severity b = WARNING \<or>
     severity a = severity b \<and>
       (file_rel a < file_rel b \<or> file_rel a = file_rel b \<and> line a \<le> line b)"
  by (cases "severity a"; cases "severity b") (auto simp: sort_rank_def)

lemma sort_rank_eq:
  "sort_rank f = (if sev = CRITICAL then 0 else 1, path, l) \<longleftrightarrow>
     severity f = sev \<and> file_rel f = path \<and> line f = l"
  by (cases "severity f"; cases sev) (auto simp: sort_rank_def)

text \<open>
  C3. In the sorted list every finding and its successor are in the order of the key
  (severity rank, file path, line): either the first is CRITICAL and the second
  WARNING, or they have the same severity and the path of the first is smaller, or
  the paths are equal too and the line of the first is not greater. The sort is
  stable: the findings that have the same three keys are in the sorted list in the
  order in which they were in the list before. The list that \<open>main\<close> reports is this
  sort of the findings that the loop over the files has collected.
\<close>

theorem final_sort_order:
  "(\<forall>i. Suc i < length (sort_findings fs) \<longrightarrow>
      (let a = sort_findings fs ! i; b = sort_findings fs ! Suc i
       in severity a = CRITICAL \<and> severity b = WARNING \<or>
          severity a = severity b \<and>
            (file_rel a < file_rel b \<or> file_rel a = file_rel b \<and> line a \<le> line b))) \<and>
   (\<forall>sev path l.
      [f \<leftarrow> sort_findings fs. severity f = sev \<and> file_rel f = path \<and> line f = l] =
      [f \<leftarrow> fs. severity f = sev \<and> file_rel f = path \<and> line f = l]) \<and>
   (\<forall>py_files r. main py_files = Inr r \<longrightarrow>
      (\<exists>found clean n. for_each scan_file py_files ([], [], 0) = Inr (found, clean, n) \<and>
         sorted_findings r = sort_findings found))"
proof (intro conjI allI impI)
  fix i
  assume i: "Suc i < length (sort_findings fs)"
  have "sorted (map sort_rank (sort_findings fs))"
    unfolding sort_findings_def by (rule sorted_sort_key)
  then have "map sort_rank (sort_findings fs) ! i \<le> map sort_rank (sort_findings fs) ! Suc i"
    using i by (intro sorted_nth_mono) simp_all
  then have "sort_rank (sort_findings fs ! i) \<le> sort_rank (sort_findings fs ! Suc i)"
    using i by simp
  then show "let a = sort_findings fs ! i; b = sort_findings fs ! Suc i
       in severity a = CRITICAL \<and> severity b = WARNING \<or>
          severity a = severity b \<and>
            (file_rel a < file_rel b \<or> file_rel a = file_rel b \<and> line a \<le> line b)"
    by (simp add: Let_def sort_rank_le)
next
  fix sev path l
  have "[f \<leftarrow> sort_findings fs. sort_rank f = (if sev = CRITICAL then 0 else 1, path, l)] =
      [f \<leftarrow> fs. sort_rank f = (if sev = CRITICAL then 0 else 1, path, l)]"
    unfolding sort_findings_def by (rule sort_key_stable)
  then show "[f \<leftarrow> sort_findings fs. severity f = sev \<and> file_rel f = path \<and> line f = l] =
      [f \<leftarrow> fs. severity f = sev \<and> file_rel f = path \<and> line f = l]"
    by (simp only: sort_rank_eq)
next
  fix py_files r
  assume "main py_files = Inr r"
  then show "\<exists>found clean n. for_each scan_file py_files ([], [], 0) = Inr (found, clean, n) \<and>
         sorted_findings r = sort_findings found"
    by (auto simp: main_def Let_def sort_findings_def split: if_splits sum.splits prod.splits)
qed

text \<open>
  In the run on \<open>run_example\<close> the second finding is CRITICAL and the third WARNING;
  the third and fourth have the same three keys (the bare-except and the empty-except
  finding of \<open>exc.py\<close>, line 3) and stay in the order in which the rules appended them.
\<close>

theorem final_sort_order_witness:
  "\<exists>r. main run_example = Inr r \<and>
     map (\<lambda>f. (file_rel f, line f, severity f, confidence f)) (sorted_findings r) =
       [(''dyn.py'', 1, CRITICAL, 95), (''dyn.py'', 3, CRITICAL, 95),
        (''exc.py'', 3, WARNING, 90), (''exc.py'', 3, WARNING, 85)] \<and>
     (let a = sorted_findings r ! 1; b = sorted_findings r ! 2
      in severity a = CRITICAL \<and> severity b = WARNING \<or>
         severity a = severity b \<and>
           (file_rel a < file_rel b \<or> file_rel a = file_rel b \<and> line a \<le> line b))"
proof -
  obtain r where run: "main run_example = Inr r"
    and fs: "map (\<lambda>f. (file_rel f, line f, severity f, confidence f)) (sorted_findings r) =
        [(''dyn.py'', 1, CRITICAL, 95), (''dyn.py'', 3, CRITICAL, 95),
         (''exc.py'', 3, WARNING, 90), (''exc.py'', 3, WARNING, 85)]"
    by (rule run_example_returns)
  have len: "length (sorted_findings r) = 4"
    using arg_cong [OF fs, of length] by simp
  obtain found where found: "sorted_findings r = sort_findings found"
    using final_sort_order [of found] run by blast
  have "Suc 1 < length (sort_findings found)"
    using len found by simp
  then have "let a = sort_findings found ! 1; b = sort_findings found ! Suc 1
      in severity a = CRITICAL \<and> severity b = WARNING \<or>
         severity a = severity b \<and>
           (file_rel a < file_rel b \<or> file_rel a = file_rel b \<and> line a \<le> line b)"
    using final_sort_order [of found] by blast
  then show ?thesis
    using run fs found by (auto simp: Let_def numeral_2_eq_2)
qed

subsection \<open>Every rule only appends\<close>

text \<open>
  Each rule returns the list it was given followed by what it appends, and what it
  appends does not depend on that list. So does \<open>analyze_file\<close>.
\<close>

lemma check_bare_except_node_emit:
  "check_bare_except_node rel_path n findings = findings @ check_bare_except_node rel_path n []"
  by (cases "(rel_path, n, findings)" rule: check_bare_except_node.cases) simp_all

lemma check_missing_auth_appends:
  "check_missing_auth tree rel_path findings =
     findings @ concat (map (\<lambda>n. check_missing_auth_node rel_path n []) (walk tree))"
  unfolding check_missing_auth_def by (rule fold_emit) (rule check_missing_auth_node_emit)

lemma check_bare_except_appends:
  "check_bare_except tree rel_path findings =
     findings @ concat (map (\<lambda>n. check_bare_except_node rel_path n []) (walk tree))"
  unfolding check_bare_except_def by (rule fold_emit) (rule check_bare_except_node_emit)

lemma check_eval_exec_appends:
  "check_eval_exec tree rel_path findings =
     findings @ concat (map (\<lambda>n. check_eval_exec_node rel_path n []) (walk tree))"
  unfolding check_eval_exec_def by (rule fold_emit) (rule check_eval_exec_node_emit)

lemma check_sql_injection_appends:
  "check_sql_injection tree rel_path findings =
     findings @ concat (map (\<lambda>n. check_sql_injection_node rel_path n []) (walk tree))"
  unfolding check_sql_injection_def by (rule fold_emit) (rule check_sql_injection_node_emit)

lemma check_missing_type_hints_appends:
  "check_missing_type_hints tree rel_path findings =
     findings @
     concat (map (\<lambda>n. check_missing_type_hints_node rel_path n []) (iter_child_nodes tree))"
  unfolding check_missing_type_hints_def
  by (rule fold_emit) (rule check_missing_type_hints_node_emit)

lemma check_print_statements_appends:
  "check_print_statements tree rel_path findings =
     findings @ check_print_statements tree rel_path []"
  by (simp add: check_print_statements_def Let_def fold_snoc_map)

lemma check_hardcoded_secrets_appends:
  "check_hardcoded_secrets readlines rel_path findings =
     findings @ check_hardcoded_secrets readlines rel_path []"
proof (cases readlines)
  case None
  then show ?thesis by (simp add: check_hardcoded_secrets_def)
next
  case (Some lines)
  have step: "check_hardcoded_secrets_line rel_path il acc =
      acc @ check_hardcoded_secrets_line rel_path il []" for il acc
    by (simp add: check_hardcoded_secrets_line_def split: prod.splits option.splits)
  show ?thesis
    using fold_emit [of "check_hardcoded_secrets_line rel_path", OF step]
    by (simp add: check_hardcoded_secrets_def Some)
qed

text \<open>The loop of the empty-except rule: what it appends, and when it raises.\<close>

lemma check_empty_except_body_node_emit:
  "check_empty_except_body_node source_lines rel_path n findings =
     (case check_empty_except_body_node source_lines rel_path n [] of
        Inl e \<Rightarrow> Inl e | Inr new \<Rightarrow> Inr (findings @ new))"
  by (cases "(source_lines, rel_path, n, findings)" rule: check_empty_except_body_node.cases)
     (simp_all add: Let_def split: sum.splits)

lemma for_each_emit:
  assumes "\<And>x acc. step x acc = (case step x [] of Inl e \<Rightarrow> Inl e | Inr new \<Rightarrow> Inr (acc @ new))"
  shows "for_each step xs acc =
     (case for_each step xs [] of Inl e \<Rightarrow> Inl e | Inr new \<Rightarrow> Inr (acc @ new))"
proof (induction xs arbitrary: acc)
  case Nil
  then show ?case by simp
next
  case (Cons x xs)
  show ?case
  proof (cases "step x []")
    case (Inl e)
    then show ?thesis using assms [of x acc] by simp
  next
    case (Inr new)
    then have "step x acc = Inr (acc @ new)" using assms [of x acc] by simp
    then show ?thesis
      using Inr Cons.IH [of "acc @ new"] Cons.IH [of new]
      by (simp split: sum.splits)
  qed
qed

lemma check_empty_except_body_appends:
  "check_empty_except_body tree readlines rel_path findings =
     (case check_empty_except_body tree readlines rel_path [] of
        Inl e \<Rightarrow> Inl e | Inr new \<Rightarrow> Inr (findings @ new))"
proof (cases readlines)
  case None
  then show ?thesis by (simp add: check_empty_except_body_def)
next
  case (Some source_lines)
  show ?thesis
    unfolding check_empty_except_body_def Some option.case
    by (rule for_each_emit) (rule check_empty_except_body_node_emit)
qed

lemma analyze_file_tree:
  assumes "parsed filepath = Tree tree"
  shows "analyze_file filepath findings =
     (case check_empty_except_body tree (except_readlines filepath) (relative_to_root filepath) [] of
        Inl x \<Rightarrow> Inl x
      | Inr new \<Rightarrow>
          Inr (True,
            findings @
            check_missing_auth tree (relative_to_root filepath) [] @
            check_bare_except tree (relative_to_root filepath) [] @
            new @
            check_print_statements tree (relative_to_root filepath) [] @
            check_eval_exec tree (relative_to_root filepath) [] @
            check_sql_injection tree (relative_to_root filepath) [] @
            check_hardcoded_secrets (secret_readlines filepath) (relative_to_root filepath) [] @
            check_missing_type_hints tree (relative_to_root filepath) []))"
proof -
  define rel where "rel = relative_to_root filepath"
  define a where "a = check_missing_auth tree rel []"
  define b where "b = check_bare_except tree rel []"
  define c where "c = check_empty_except_body tree (except_readlines filepath) rel []"
  define p where "p = check_print_statements tree rel []"
  define e where "e = check_eval_exec tree rel []"
  define s where "s = check_sql_injection tree rel []"
  define h where "h = check_hardcoded_secrets (secret_readlines filepath) rel []"
  define t where "t = check_missing_type_hints tree rel []"
  have a: "check_missing_auth tree rel fs = fs @ a" for fs
    unfolding a_def
    using check_missing_auth_appends [of tree rel fs] check_missing_auth_appends [of tree rel "[]"]
    by simp
  have b: "check_bare_except tree rel fs = fs @ b" for fs
    unfolding b_def
    using check_bare_except_appends [of tree rel fs] check_bare_except_appends [of tree rel "[]"]
    by simp
  have c: "check_empty_except_body tree (except_readlines filepath) rel fs =
      (case c of Inl e \<Rightarrow> Inl e | Inr new \<Rightarrow> Inr (fs @ new))" for fs
    unfolding c_def by (rule check_empty_except_body_appends)
  have p: "check_print_statements tree rel fs = fs @ p" for fs
    unfolding p_def by (rule check_print_statements_appends)
  have e: "check_eval_exec tree rel fs = fs @ e" for fs
    unfolding e_def
    using check_eval_exec_appends [of tree rel fs] check_eval_exec_appends [of tree rel "[]"]
    by simp
  have s: "check_sql_injection tree rel fs = fs @ s" for fs
    unfolding s_def
    using check_sql_injection_appends [of tree rel fs] check_sql_injection_appends [of tree rel "[]"]
    by simp
  have h: "check_hardcoded_secrets (secret_readlines filepath) rel fs = fs @ h" for fs
    unfolding h_def by (rule check_hardcoded_secrets_appends)
  have t: "check_missing_type_hints tree rel fs = fs @ t" for fs
    unfolding t_def
    using check_missing_type_hints_appends [of tree rel fs]
      check_missing_type_hints_appends [of tree rel "[]"]
    by simp
  have "analyze_file filepath findings =
      (case c of Inl x \<Rightarrow> Inl x
       | Inr new \<Rightarrow> Inr (True, findings @ a @ b @ new @ p @ e @ s @ h @ t))"
    by (simp add: analyze_file_def assms Let_def rel_def [symmetric] a b c p e s h t
        split: sum.splits)
  then show ?thesis
    unfolding a_def b_def c_def p_def e_def s_def h_def t_def rel_def .
qed

lemma analyze_file_appends:
  "analyze_file filepath findings =
     (case analyze_file filepath [] of
        Inl e \<Rightarrow> Inl e | Inr (ok, new) \<Rightarrow> Inr (ok, findings @ new))"
proof (cases "parsed filepath")
  case (Tree tree)
  show ?thesis
    unfolding analyze_file_tree [OF Tree] by (simp split: sum.splits)
qed (simp_all add: analyze_file_def)

subsection \<open>Skipped and scanned files\<close>

lemma analyze_file_skipped:
  "parsed filepath = ReadError \<or> parsed filepath = SyntaxError \<Longrightarrow>
     analyze_file filepath findings = Inr (False, findings)"
  by (auto simp: analyze_file_def)


lemma not_analyzed_cases:
  "\<not> analyzed filepath \<Longrightarrow> analyze_file filepath findings = Inr res \<Longrightarrow>
     parsed filepath = ReadError \<or> parsed filepath = SyntaxError"
  by (cases "parsed filepath") (simp_all add: analyzed_def analyze_file_def)

lemma analyze_file_ok:
  "analyze_file filepath findings = Inr (ok, findings') \<Longrightarrow> ok = analyzed filepath"
proof (cases "parsed filepath")
  case (Tree tree)
  assume "analyze_file filepath findings = Inr (ok, findings')"
  then show ?thesis
    unfolding analyze_file_tree [OF Tree] by (auto simp: analyzed_def Tree split: sum.splits)
qed (auto simp: analyzed_def analyze_file_def)

lemma scan_file_step:
  "scan_file filepath (findings, clean_files, scanned) =
     (case analyze_file filepath [] of
        Inl e \<Rightarrow> Inl e
      | Inr (ok, new) \<Rightarrow>
          if analyzed filepath
          then Inr (findings @ file_findings filepath,
                    if file_findings filepath = []
                    then clean_files @ [relative_to_root filepath] else clean_files,
                    scanned + 1)
          else Inr (findings, clean_files, scanned))"
proof (cases "analyze_file filepath []")
  case (Inl e)
  then show ?thesis
    using analyze_file_appends [of filepath findings] by (simp add: scan_file_def)
next
  case (Inr res)
  obtain ok new where res: "res = (ok, new)" by (cases res)
  have ok: "ok = analyzed filepath" using Inr res analyze_file_ok by simp
  have new: "file_findings filepath = new" using Inr res by (simp add: file_findings_def)
  have skipped: "new = []" if "\<not> analyzed filepath"
    using analyze_file_skipped [OF not_analyzed_cases [OF that Inr], of "[]"] Inr res by simp
  have "analyze_file filepath findings = Inr (ok, findings @ new)"
    using analyze_file_appends [of filepath findings] Inr res by simp
  then show ?thesis
    using Inr res ok new skipped by (auto simp: scan_file_def)
qed






subsection \<open>Bare handler with an empty body\<close>

text \<open>
  The loop of the empty-except rule returns when every \<open>pass\<close> that is the whole body
  of a handler has a line number of at least 1, as the parser numbers lines.
\<close>

lemma for_each_total:
  assumes "\<And>x acc. x \<in> set xs \<Longrightarrow> step x acc = Inr (acc @ emit x)"
  shows "for_each step xs acc = Inr (acc @ concat (map emit xs))"
  using assms by (induction xs arbitrary: acc) simp_all

lemma check_empty_except_body_node_returns:
  assumes "\<forall>etype pl l. n = ExceptHandler etype [Pass pl] l \<longrightarrow> 1 \<le> pl"
  shows "\<exists>new. check_empty_except_body_node source_lines rel_path n [] = Inr new"
  using assms
  by (cases "(source_lines, rel_path, n, [] :: finding list)"
        rule: check_empty_except_body_node.cases)
     (auto simp: Let_def getitem_def)

lemma check_empty_except_body_returns:
  assumes "\<forall>etype pl l. ExceptHandler etype [Pass pl] l \<in> set (walk tree) \<longrightarrow> 1 \<le> pl"
  shows "check_empty_except_body tree (Some source_lines) rel_path findings =
     Inr (findings @
          concat (map (\<lambda>n. case check_empty_except_body_node source_lines rel_path n [] of
                         Inl e \<Rightarrow> [] | Inr new \<Rightarrow> new) (walk tree)))"
  unfolding check_empty_except_body_def option.case
proof (rule for_each_total)
  fix n acc
  assume "n \<in> set (walk tree)"
  then have "\<forall>etype pl l. n = ExceptHandler etype [Pass pl] l \<longrightarrow> 1 \<le> pl"
    using assms by blast
  then obtain new where "check_empty_except_body_node source_lines rel_path n [] = Inr new"
    using check_empty_except_body_node_returns by blast
  then show "check_empty_except_body_node source_lines rel_path n acc =
      Inr (acc @ (case check_empty_except_body_node source_lines rel_path n [] of
                    Inl e \<Rightarrow> [] | Inr new \<Rightarrow> new))"
    using check_empty_except_body_node_emit [of source_lines rel_path n acc] by simp
qed




subsection \<open>The run returns\<close>

text \<open>
  The statements about a run speak of a report that \<open>main\<close> returns. It returns one
  whenever \<open>ast.parse\<close> raises nothing but \<open>SyntaxError\<close> and the \<open>pass\<close> statements of
  the trees have line numbers of at least 1, which holds for every tree that
  \<open>ast.parse\<close> builds: no index is then out of range in the empty-except rule.
\<close>

lemma for_each_returns:
  assumes "\<And>x s. x \<in> set xs \<Longrightarrow> \<exists>s'. step x s = Inr s'"
  shows "\<exists>s'. for_each step xs s = Inr s'"
  using assms
proof (induction xs arbitrary: s)
  case Nil
  then show ?case by simp
next
  case (Cons x xs)
  obtain s' where "step x s = Inr s'" using Cons.prems [of x s] by auto
  then show ?case using Cons.IH [of s'] Cons.prems by simp
qed

lemma analyze_file_returns:
  assumes "\<forall>tree. parsed f = Tree tree \<longrightarrow>
             (\<forall>etype pl l. ExceptHandler etype [Pass pl] l \<in> set (walk tree) \<longrightarrow> 1 \<le> pl)"
    and "\<forall>e. parsed f \<noteq> OtherError e"
  shows "\<exists>res. analyze_file f findings = Inr res"
proof (cases "parsed f")
  case (Tree tree)
  then have wf: "\<forall>etype pl l. ExceptHandler etype [Pass pl] l \<in> set (walk tree) \<longrightarrow> 1 \<le> pl"
    using assms(1) by simp
  have "\<exists>new. check_empty_except_body tree (except_readlines f) (relative_to_root f) [] = Inr new"
  proof (cases "except_readlines f")
    case None
    then show ?thesis by (simp add: check_empty_except_body_def)
  next
    case (Some source_lines)
    then show ?thesis
      using check_empty_except_body_returns [OF wf, of source_lines "relative_to_root f" "[]"]
      by simp
  qed
  then show ?thesis
    unfolding analyze_file_tree [OF Tree] by auto
qed (use assms(2) in \<open>auto simp: analyze_file_def\<close>)

lemma main_returns:
  assumes "\<forall>f \<in> set py_files. \<forall>tree. parsed f = Tree tree \<longrightarrow>
             (\<forall>etype pl l. ExceptHandler etype [Pass pl] l \<in> set (walk tree) \<longrightarrow> 1 \<le> pl)"
    and "\<forall>f \<in> set py_files. \<forall>e. parsed f \<noteq> OtherError e"
  shows "\<exists>r. main py_files = Inr r"
proof -
  have "\<exists>st'. scan_file f st = Inr st'" if "f \<in> set py_files" for f st
  proof -
    obtain findings clean_files scanned where st: "st = (findings, clean_files, scanned)"
      by (cases st)
    have "\<forall>tree. parsed f = Tree tree \<longrightarrow>
        (\<forall>etype pl l. ExceptHandler etype [Pass pl] l \<in> set (walk tree) \<longrightarrow> 1 \<le> pl)"
      using assms(1) that by simp
    moreover have "\<forall>e. parsed f \<noteq> OtherError e"
      using assms(2) that by simp
    ultimately obtain res where "analyze_file f [] = Inr res"
      using analyze_file_returns [of f "[]"] by auto
    then show ?thesis
      unfolding st scan_file_step by (simp split: prod.splits)
  qed
  then obtain st' where "for_each scan_file py_files ([], [], 0) = Inr st'"
    using for_each_returns [of py_files scan_file "([], [], 0)"] by blast
  then show ?thesis
    by (cases st') (simp add: main_def Let_def)
qed

end
